theory Spec2Isabelle
  imports Main
begin

section \<open>Python string helpers\<close>

text \<open>
  Source text is modelled as a \<open>string\<close> (a list of characters). A character is
  read as the code point with its number, so the model covers the texts whose code
  points are below 256; the character classes below are those of Python on these
  code points.
\<close>

text \<open>\<open>str(n)\<close> for a Python integer: decimal digits, with a minus sign when negative.\<close>

fun str_nat :: "nat \<Rightarrow> string" where
  "str_nat n =
     (if n < 10 then [char_of (48 + n)]
      else str_nat (n div 10) @ [char_of (48 + n mod 10)])"

declare str_nat.simps [simp del]

definition str_int :: "int \<Rightarrow> string" where
  "str_int i = (if i < 0 then CHR ''-'' # str_nat (nat (- i)) else str_nat (nat i))"

text \<open>\<open>sep.join(xs)\<close>.\<close>

fun join :: "string \<Rightarrow> string list \<Rightarrow> string" where
  "join sep [] = []"
| "join sep [x] = x"
| "join sep (x # y # ys) = x @ sep @ join sep (y # ys)"

abbreviation newline :: char where
  "newline \<equiv> CHR 0x0A"

text \<open>\<open>s.startswith(p)\<close>, \<open>s.endswith(p)\<close> and \<open>p in s\<close>.\<close>

definition startswith :: "string \<Rightarrow> string \<Rightarrow> bool" where
  "startswith s p = (take (length p) s = p)"

definition endswith :: "string \<Rightarrow> string \<Rightarrow> bool" where
  "endswith s p = (length p \<le> length s \<and> drop (length s - length p) s = p)"

fun contains :: "string \<Rightarrow> string \<Rightarrow> bool" where
  "contains p [] = (p = [])"
| "contains p (c # cs) = (startswith (c # cs) p \<or> contains p cs)"

text \<open>
  \<open>s.count(sub)\<close>: the number of non-overlapping occurrences, found from left to
  right; for the empty \<open>sub\<close> Python answers \<open>len(s) + 1\<close>.
\<close>

function count_from :: "string \<Rightarrow> string \<Rightarrow> nat" where
  "count_from sub s =
     (if sub = [] then length s + 1
      else if s = [] then 0
      else if startswith s sub then 1 + count_from sub (drop (length sub) s)
      else count_from sub (tl s))"
  by pat_completeness auto
termination
  by (relation "measure (\<lambda>(sub, s). length s)") auto

declare count_from.simps [simp del]

text \<open>
  The character classes on the code points below 256: \<open>str.isspace\<close> (which is
  also \<open>\s\<close> and what \<open>strip\<close> removes) holds for 9 to 13, 28 to 32, 133 and 160;
  \<open>\w\<close> holds for the digits, the letters and the underscore of ASCII and for 170,
  178, 179, 181, 185, 186, 188 to 190, 192 to 214, 216 to 246 and 248 to 255.
\<close>

definition is_space :: "char \<Rightarrow> bool" where
  "is_space c =
     (let n = (of_char c :: nat)
      in (9 \<le> n \<and> n \<le> 13) \<or> (28 \<le> n \<and> n \<le> 32) \<or> n = 133 \<or> n = 160)"

definition is_word :: "char \<Rightarrow> bool" where
  "is_word c =
     (let n = (of_char c :: nat)
      in (48 \<le> n \<and> n \<le> 57) \<or> (65 \<le> n \<and> n \<le> 90) \<or> n = 95 \<or>
         (97 \<le> n \<and> n \<le> 122) \<or> n = 170 \<or> n = 178 \<or> n = 179 \<or> n = 181 \<or>
         n = 185 \<or> n = 186 \<or> (188 \<le> n \<and> n \<le> 190) \<or>
         (192 \<le> n \<and> n \<le> 214) \<or> (216 \<le> n \<and> n \<le> 246) \<or> 248 \<le> n)"

text \<open>
  \<open>str.lower\<close> on one character: the capital letters are 65 to 90, 192 to 214 and
  216 to 222, each 32 below its small letter. \<open>str.upper\<close> goes the other way for
  97 to 122, 224 to 246 and 248 to 254; the capitals of 181, 223 and 255 are not
  below 256 and these three are left as they are (\<open>capitalize\<close> is only applied to
  texts that start with an ASCII letter, see \<open>analyze_usage_pattern\<close>).
\<close>

definition lower_char :: "char \<Rightarrow> char" where
  "lower_char c =
     (let n = (of_char c :: nat)
      in if (65 \<le> n \<and> n \<le> 90) \<or> (192 \<le> n \<and> n \<le> 214) \<or> (216 \<le> n \<and> n \<le> 222)
         then char_of (n + 32) else c)"

definition upper_char :: "char \<Rightarrow> char" where
  "upper_char c =
     (let n = (of_char c :: nat)
      in if (97 \<le> n \<and> n \<le> 122) \<or> (224 \<le> n \<and> n \<le> 246) \<or> (248 \<le> n \<and> n \<le> 254)
         then char_of (n - 32) else c)"

text \<open>\<open>s.lower()\<close>, \<open>s.capitalize()\<close> and \<open>s.strip()\<close>.\<close>

definition lower :: "string \<Rightarrow> string" where
  "lower s = map lower_char s"

definition capitalize :: "string \<Rightarrow> string" where
  "capitalize s = (case s of [] \<Rightarrow> [] | c # cs \<Rightarrow> upper_char c # map lower_char cs)"

definition strip :: "string \<Rightarrow> string" where
  "strip s = rev (dropWhile is_space (rev (dropWhile is_space s)))"

text \<open>\<open>s.split('\n')\<close>: always at least one piece.\<close>

fun split_lines :: "string \<Rightarrow> string list" where
  "split_lines [] = [[]]"
| "split_lines (c # cs) =
     (if c = newline then [] # split_lines cs
      else (case split_lines cs of [] \<Rightarrow> [[c]] | l # ls \<Rightarrow> (c # l) # ls))"

text \<open>\<open>xs[a:b]\<close> for indices that are not negative.\<close>

definition py_slice :: "'a list \<Rightarrow> nat \<Rightarrow> nat \<Rightarrow> 'a list" where
  "py_slice xs a b = take (b - a) (drop a xs)"

section \<open>The regular expressions of the scripts\<close>

text \<open>
  The fragment of Python's \<open>re\<close> syntax that the scripts use: literals, character
  classes, greedy \<open>*\<close> and \<open>+\<close> on a class, sequence, alternation, greedy \<open>?\<close>,
  capture groups, \<open>\b\<close>, \<open>$\<close>, and \<open>^\<close> under \<open>re.MULTILINE\<close>.
\<close>

datatype rx =
    Lit string
  | Cls "char \<Rightarrow> bool"
  | StarC "char \<Rightarrow> bool"
  | PlusC "char \<Rightarrow> bool"
  | Seq rx rx
  | Alt rx rx
  | Opt rx
  | Grp nat rx
  | Wb
  | Eos
  | Bol

fun seqs :: "rx list \<Rightarrow> rx" where
  "seqs [] = Lit []"
| "seqs [r] = r"
| "seqs (r # rs) = Seq r (seqs rs)"

text \<open>
  A matcher state: the character before the current position (\<open>None\<close> at the start
  of the text), the text still to read, and the groups captured so far (the latest
  capture of a group first).
\<close>

type_synonym mstate = "char option \<times> string \<times> (nat \<times> string) list"

text \<open>The ways a greedy \<open>c*\<close> can stop, the longest first, as backtracking tries them.\<close>

fun star_rems :: "(char \<Rightarrow> bool) \<Rightarrow> char option \<Rightarrow> string \<Rightarrow> (char option \<times> string) list" where
  "star_rems p prev [] = [(prev, [])]"
| "star_rems p prev (c # cs) =
     (if p c then star_rems p (Some c) cs @ [(prev, c # cs)] else [(prev, c # cs)])"

definition word_before :: "char option \<Rightarrow> bool" where
  "word_before prev = (case prev of None \<Rightarrow> False | Some c \<Rightarrow> is_word c)"

definition word_after :: "string \<Rightarrow> bool" where
  "word_after s = (case s of [] \<Rightarrow> False | c # cs \<Rightarrow> is_word c)"

text \<open>
  All the ways the expression can match at the start of the text, in the order in
  which Python's backtracking matcher tries them: the head of the list is the match
  that \<open>re\<close> reports.
\<close>

fun ms :: "rx \<Rightarrow> mstate \<Rightarrow> mstate list" where
  "ms (Lit l) (prev, s, caps) =
     (if startswith s l
      then [(if l = [] then prev else Some (last l), drop (length l) s, caps)] else [])"
| "ms (Cls p) (prev, s, caps) =
     (case s of [] \<Rightarrow> [] | c # cs \<Rightarrow> if p c then [(Some c, cs, caps)] else [])"
| "ms (StarC p) (prev, s, caps) = map (\<lambda>(pv, r). (pv, r, caps)) (star_rems p prev s)"
| "ms (PlusC p) (prev, s, caps) =
     (case s of [] \<Rightarrow> []
      | c # cs \<Rightarrow> if p c then map (\<lambda>(pv, r). (pv, r, caps)) (star_rems p (Some c) cs) else [])"
| "ms (Seq a b) st = concat (map (ms b) (ms a st))"
| "ms (Alt a b) st = ms a st @ ms b st"
| "ms (Opt a) st = ms a st @ [st]"
| "ms (Grp n a) (prev, s, caps) =
     map (\<lambda>(pv, r, cs). (pv, r, (n, take (length s - length r) s) # cs)) (ms a (prev, s, caps))"
| "ms Wb (prev, s, caps) =
     (if word_before prev \<noteq> word_after s then [(prev, s, caps)] else [])"
| "ms Eos (prev, s, caps) = (if s = [] \<or> s = [newline] then [(prev, s, caps)] else [])"
| "ms Bol (prev, s, caps) =
     (if prev = None \<or> prev = Some newline then [(prev, s, caps)] else [])"

text \<open>A match object: \<open>start()\<close>, \<open>end()\<close> and the captured groups.\<close>

record rmatch =
  m_start :: nat
  m_end :: nat
  m_groups :: "(nat \<times> string) list"

definition group0 :: "string \<Rightarrow> rmatch \<Rightarrow> string" where
  "group0 content m = py_slice content (m_start m) (m_end m)"

definition group :: "rmatch \<Rightarrow> nat \<Rightarrow> string" where
  "group m n = (case map_of (m_groups m) n of None \<Rightarrow> [] | Some g \<Rightarrow> g)"

definition prev_char :: "string \<Rightarrow> nat \<Rightarrow> char option" where
  "prev_char content pos = (if pos = 0 then None else Some (content ! (pos - 1)))"

text \<open>The match of the expression that starts exactly at \<open>pos\<close>, if there is one.\<close>

definition match_at :: "rx \<Rightarrow> string \<Rightarrow> nat \<Rightarrow> rmatch option" where
  "match_at r content pos =
     (case ms r (prev_char content pos, drop pos content, []) of
        [] \<Rightarrow> None
      | (pv, rest, caps) # _ \<Rightarrow>
          Some \<lparr>m_start = pos, m_end = length content - length rest, m_groups = caps\<rparr>)"

text \<open>
  \<open>re.finditer\<close>: the non-overlapping matches from left to right. After a match the
  scan goes on at its end (one character further after an empty match; none of the
  expressions of the scripts matches the empty text).
\<close>

function finditer_from :: "rx \<Rightarrow> string \<Rightarrow> nat \<Rightarrow> rmatch list" where
  "finditer_from r content pos =
     (if length content < pos then []
      else case match_at r content pos of
             None \<Rightarrow> finditer_from r content (pos + 1)
           | Some m \<Rightarrow>
               m # finditer_from r content (if pos < m_end m then m_end m else pos + 1))"
  by pat_completeness auto
termination
  by (relation "measure (\<lambda>(r, content, pos). length content + 1 - pos)") auto

declare finditer_from.simps [simp del]

definition finditer :: "rx \<Rightarrow> string \<Rightarrow> rmatch list" where
  "finditer r content = finditer_from r content 0"

text \<open>\<open>re.search\<close>: the first match from left to right.\<close>

function search_from :: "rx \<Rightarrow> string \<Rightarrow> nat \<Rightarrow> rmatch option" where
  "search_from r content pos =
     (if length content < pos then None
      else case match_at r content pos of
             None \<Rightarrow> search_from r content (pos + 1)
           | Some m \<Rightarrow> Some m)"
  by pat_completeness auto
termination
  by (relation "measure (\<lambda>(r, content, pos). length content + 1 - pos)") auto

declare search_from.simps [simp del]

definition search :: "rx \<Rightarrow> string \<Rightarrow> rmatch option" where
  "search r content = search_from r content 0"

text \<open>
  \<open>re.findall\<close>: the text of every match for an expression without a group, the
  text of group 1 for an expression with one group.
\<close>

definition findall :: "rx \<Rightarrow> string \<Rightarrow> string list" where
  "findall r content = map (group0 content) (finditer r content)"

definition findall_group1 :: "rx \<Rightarrow> string \<Rightarrow> string list" where
  "findall_group1 r content = map (\<lambda>m. group m 1) (finditer r content)"

text \<open>\<open>re.sub(r, '', s)\<close>: the text with every match removed.\<close>

fun remove_spans :: "rmatch list \<Rightarrow> string \<Rightarrow> nat \<Rightarrow> string" where
  "remove_spans [] content pos = drop pos content"
| "remove_spans (m # rest) content pos =
     py_slice content pos (m_start m) @ remove_spans rest content (m_end m)"

definition sub_empty :: "rx \<Rightarrow> string \<Rightarrow> string" where
  "sub_empty r s = remove_spans (finditer r s) s 0"

definition any_char :: "char \<Rightarrow> bool" where
  "any_char c = (c \<noteq> newline)"

section \<open>audit_traits.py: the declaration classifier\<close>

text \<open>The dictionary built by \<open>extract_traits\<close> for one trait.\<close>

record trait_info =
  t_name :: string
  t_file :: string
  t_line :: int
  method_count :: int
  methods :: "string list"
  assoc_types :: "string list"
  has_generics :: bool
  signature :: string
  t_body :: string

text \<open>The dictionary built by \<open>check_trait_usage\<close>.\<close>

record usage_patterns =
  impl_count :: int
  dyn_usage :: int
  bound_usage :: int
  impl_files :: "string list"
  dyn_files :: "string list"
  bound_files :: "string list"

datatype category = DEFINITELY_REMOVE | MAYBE_REMOVE | KEEP_AS_IS

text \<open>
  \<open>analyze_trait_necessity(trait_info, usage)\<close>: the two reason lists are threaded
  through the rules in the order of the source; the result is the returned triple.
\<close>

definition analyze_trait_necessity ::
  "'a trait_info_scheme \<Rightarrow> 'b usage_patterns_scheme \<Rightarrow> category \<times> string list \<times> string list" where
  "analyze_trait_necessity trait_info usage =
    (let reasons_to_keep = [];
         reasons_to_remove = [];
         reasons_to_remove =
           (if method_count trait_info = 1
            then reasons_to_remove @ [''Single method trait'']
            else reasons_to_remove);
         reasons_to_keep =
           (if assoc_types trait_info \<noteq> []
            then reasons_to_keep @
                 [''Has associated types: '' @ join '', '' (assoc_types trait_info)]
            else reasons_to_keep);
         reasons_to_keep =
           (if has_generics trait_info
            then reasons_to_keep @ [''Uses generics/lifetimes'']
            else reasons_to_keep);
         reasons_to_keep =
           (if dyn_usage usage > 0
            then reasons_to_keep @
                 [''Used in trait objects ('' @ str_int (dyn_usage usage) @ '' times)'']
            else reasons_to_keep);
         (reasons_to_keep, reasons_to_remove) =
           (if impl_count usage > 1
            then (reasons_to_keep @
                  [''Multiple implementations ('' @ str_int (impl_count usage) @ '')''],
                  reasons_to_remove)
            else if impl_count usage = 0
            then (reasons_to_keep, reasons_to_remove @ [''No implementations found''])
            else if impl_count usage = 1
            then (reasons_to_keep, reasons_to_remove @ [''Only one implementation''])
            else (reasons_to_keep, reasons_to_remove));
         reasons_to_keep =
           (if bound_usage usage > 2
            then reasons_to_keep @
                 [''Used as trait bound ('' @ str_int (bound_usage usage) @ '' times)'']
            else reasons_to_keep)
     in if reasons_to_keep = [] \<and> reasons_to_remove \<noteq> []
        then (DEFINITELY_REMOVE, reasons_to_keep, reasons_to_remove)
        else if length reasons_to_keep \<le> 1 \<and> length reasons_to_remove \<ge> 2
        then (MAYBE_REMOVE, reasons_to_keep, reasons_to_remove)
        else (KEEP_AS_IS, reasons_to_keep, reasons_to_remove))"

subsection \<open>The rule list as the specification words it\<close>

text \<open>
  The keep-reasons and remove-reasons as the specification lists them: every rule
  contributes its reason or nothing, in the fixed order 1 to 6.
\<close>

definition spec_keep_reasons ::
  "'a trait_info_scheme \<Rightarrow> 'b usage_patterns_scheme \<Rightarrow> string list" where
  "spec_keep_reasons trait_info usage =
     (if assoc_types trait_info \<noteq> []
      then [''Has associated types: '' @ join '', '' (assoc_types trait_info)] else [])
     @ (if has_generics trait_info then [''Uses generics/lifetimes''] else [])
     @ (if dyn_usage usage > 0
        then [''Used in trait objects ('' @ str_int (dyn_usage usage) @ '' times)''] else [])
     @ (if impl_count usage > 1
        then [''Multiple implementations ('' @ str_int (impl_count usage) @ '')''] else [])
     @ (if bound_usage usage > 2
        then [''Used as trait bound ('' @ str_int (bound_usage usage) @ '' times)''] else [])"

definition spec_remove_reasons ::
  "'a trait_info_scheme \<Rightarrow> 'b usage_patterns_scheme \<Rightarrow> string list" where
  "spec_remove_reasons trait_info usage =
     (if method_count trait_info = 1 then [''Single method trait''] else [])
     @ (if impl_count usage = 0 then [''No implementations found''] else [])
     @ (if impl_count usage = 1 then [''Only one implementation''] else [])"

definition spec_decision :: "string list \<Rightarrow> string list \<Rightarrow> category" where
  "spec_decision keep_reasons remove_reasons =
     (if keep_reasons = [] \<and> remove_reasons \<noteq> [] then DEFINITELY_REMOVE
      else if length keep_reasons \<le> 1 \<and> length remove_reasons \<ge> 2 then MAYBE_REMOVE
      else KEEP_AS_IS)"

text \<open>The reasons that rule 5 (the implementation count) can contribute.\<close>

definition is_impl_reason :: "string \<Rightarrow> bool" where
  "is_impl_reason s =
     (take 26 s = ''Multiple implementations ('' \<or> s = ''No implementations found''
      \<or> s = ''Only one implementation'')"

text \<open>Example inputs of the classifier.\<close>

definition single_method_trait :: trait_info where
  "single_method_trait =
     \<lparr>t_name = ''T'', t_file = ''a.rs'', t_line = 1, method_count = 1, methods = [''f''],
      assoc_types = [], has_generics = False, signature = ''trait T {'',
      t_body = ''fn f();''\<rparr>"

definition no_usage :: usage_patterns where
  "no_usage =
     \<lparr>impl_count = 0, dyn_usage = 0, bound_usage = 0,
      impl_files = [], dyn_files = [], bound_files = []\<rparr>"

definition one_impl_one_dyn :: usage_patterns where
  "one_impl_one_dyn =
     \<lparr>impl_count = 1, dyn_usage = 1, bound_usage = 0,
      impl_files = [''b.rs''], dyn_files = [''b.rs''], bound_files = []\<rparr>"

section \<open>Reading the corpus\<close>

text \<open>
  A source unit is a path together with what \<open>open(path).read()\<close> gives: the text,
  or \<open>None\<close> when the read raises (an I/O or a decoding error). The list of units
  stands for the result of \<open>find_rust_files(root_dir)\<close>.
\<close>

datatype error = ReadError

type_synonym source_unit = "string \<times> string option"

definition read_text :: "source_unit \<Rightarrow> error + string" where
  "read_text u = (case snd u of None \<Rightarrow> Inl ReadError | Some content \<Rightarrow> Inr content)"

section \<open>audit_traits.py: extracting trait declarations\<close>

text \<open>
  \<^verbatim>\<open>^(?P<indent>\s*)(?:pub(?:\([^)]*\))?\s+)?trait\s+(?P<name>\w+)(?:<[^>]*>)?\s*(?::\s*[^{]*)?{\<close>
  with \<open>re.MULTILINE\<close>; group 1 is \<open>indent\<close>, group 2 is \<open>name\<close>.
\<close>

definition trait_pattern :: rx where
  "trait_pattern =
     seqs [Bol, Grp 1 (StarC is_space),
           Opt (seqs [Lit ''pub'',
                      Opt (seqs [Lit ''('', StarC (\<lambda>c. c \<noteq> CHR '')''), Lit '')'']),
                      PlusC is_space]),
           Lit ''trait'', PlusC is_space, Grp 2 (PlusC is_word),
           Opt (seqs [Lit ''<'', StarC (\<lambda>c. c \<noteq> CHR ''>''), Lit ''>'']),
           StarC is_space,
           Opt (seqs [Lit '':'', StarC is_space, StarC (\<lambda>c. c \<noteq> CHR ''{'')]),
           Lit ''{'']"

text \<open>\<^verbatim>\<open>\bfn\s+(\w+)\<close>, \<^verbatim>\<open>//.*$\<close> and \<^verbatim>\<open>type\s+(\w+)\<close>.\<close>

definition fn_pattern :: rx where
  "fn_pattern = seqs [Wb, Lit ''fn'', PlusC is_space, Grp 1 (PlusC is_word)]"

definition comment_pattern :: rx where
  "comment_pattern = seqs [Lit ''//'', StarC any_char, Eos]"

definition type_pattern :: rx where
  "type_pattern = seqs [Lit ''type'', PlusC is_space, Grp 1 (PlusC is_word)]"

text \<open>
  The loop \<open>while pos < len(content) and brace_count > 0\<close>; the result is the final
  \<open>pos\<close> and \<open>brace_count\<close>.
\<close>

function brace_scan :: "string \<Rightarrow> nat \<Rightarrow> int \<Rightarrow> nat \<times> int" where
  "brace_scan content pos brace_count =
     (if pos < length content \<and> brace_count > 0
      then brace_scan content (pos + 1)
             (if content ! pos = CHR ''{'' then brace_count + 1
              else if content ! pos = CHR ''}'' then brace_count - 1
              else brace_count)
      else (pos, brace_count))"
  by pat_completeness auto
termination
  by (relation "measure (\<lambda>(content, pos, brace_count). length content - pos)") auto

declare brace_scan.simps [simp del]

text \<open>
  \<open>trait_body = content[trait_body_start:pos-1]\<close>. The start is the end of a header
  match, which is at least 1, so \<open>pos - 1\<close> is never negative.
\<close>

definition trait_body_of :: "string \<Rightarrow> nat \<Rightarrow> string" where
  "trait_body_of content start_pos =
     (let (pos, brace_count) = brace_scan content start_pos 1
      in py_slice content start_pos (pos - 1))"

text \<open>The loop over the lines of the body that counts the methods.\<close>

definition count_methods :: "string \<Rightarrow> int \<times> string list" where
  "count_methods trait_body =
     fold (\<lambda>line (method_count, methods).
             let line = sub_empty comment_pattern line;
                 fn_matches = findall_group1 fn_pattern line
             in (method_count + int (length fn_matches), methods @ fn_matches))
          (split_lines trait_body) (0, [])"

text \<open>The body of the loop over the header matches: the dictionary of one trait.\<close>

definition trait_of_match :: "string \<Rightarrow> string \<Rightarrow> rmatch \<Rightarrow> trait_info" where
  "trait_of_match file_path content m =
     (let trait_name = group m 2;
          start_pos = m_end m;
          trait_body = trait_body_of content start_pos;
          (method_count, methods) = count_methods trait_body;
          assoc_types = findall_group1 type_pattern trait_body;
          has_generics = contains ''<'' (group0 content m);
          signature = strip (py_slice content (m_start m) (m_end m))
      in \<lparr>t_name = trait_name, t_file = file_path,
          t_line = int (count_from [newline] (take (m_start m) content)) + 1,
          method_count = method_count, methods = methods, assoc_types = assoc_types,
          has_generics = has_generics, signature = signature,
          t_body = strip trait_body\<rparr>)"

definition extract_traits :: "source_unit \<Rightarrow> error + trait_info list" where
  "extract_traits u =
     (case read_text u of
        Inl e \<Rightarrow> Inl e
      | Inr content \<Rightarrow>
          Inr (map (trait_of_match (fst u) content) (finditer trait_pattern content)))"

text \<open>The first loop of \<open>main\<close>: \<open>all_traits\<close>; a read that raises ends the run.\<close>

fun main_all_traits :: "source_unit list \<Rightarrow> error + trait_info list" where
  "main_all_traits [] = Inr []"
| "main_all_traits (rs_file # rest) =
     (case extract_traits rs_file of
        Inl e \<Rightarrow> Inl e
      | Inr traits \<Rightarrow>
          (case main_all_traits rest of
             Inl e \<Rightarrow> Inl e
           | Inr all_traits \<Rightarrow> Inr (traits @ all_traits)))"

text \<open>
  Text in which the braces are balanced: every closing brace has its opening brace
  before it, at any depth of nesting.
\<close>

inductive balanced :: "string \<Rightarrow> bool" where
  bal_nil: "balanced []"
| bal_char: "c \<noteq> CHR ''{'' \<Longrightarrow> c \<noteq> CHR ''}'' \<Longrightarrow> balanced w \<Longrightarrow> balanced (c # w)"
| bal_nest: "balanced v \<Longrightarrow> balanced w \<Longrightarrow> balanced (CHR ''{'' # v @ CHR ''}'' # w)"

text \<open>\<open>n\<close> pairs of braces, one inside the other, around a text.\<close>

fun nested :: "nat \<Rightarrow> string \<Rightarrow> string" where
  "nested 0 w = w"
| "nested (Suc n) w = CHR ''{'' # nested n w @ ''}''"

section \<open>audit_traits.py: the usage profiler\<close>

text \<open>
  The three expressions are built from the trait name by string formatting:
  \<^verbatim>\<open>impl.*NAME\<close>, \<^verbatim>\<open>dyn NAME\<close> and \<^verbatim>\<open>: NAME\<close>. The names come from group
  \<open>name\<close> of the header match, so they are word characters and stand for themselves.
\<close>

definition impl_pattern :: "string \<Rightarrow> rx" where
  "impl_pattern trait_name = seqs [Lit ''impl'', StarC any_char, Lit trait_name]"

definition dyn_pattern :: "string \<Rightarrow> rx" where
  "dyn_pattern trait_name = Lit (''dyn '' @ trait_name)"

definition bound_pattern :: "string \<Rightarrow> rx" where
  "bound_pattern trait_name = Lit ('': '' @ trait_name)"

text \<open>
  The body of the loop over the files, inside \<open>try\<close>; \<open>except Exception: continue\<close>
  leaves the dictionary as it was.
\<close>

definition scan_unit :: "string \<Rightarrow> source_unit \<Rightarrow> usage_patterns \<Rightarrow> usage_patterns" where
  "scan_unit trait_name rs_file usage_patterns =
     (case read_text rs_file of
        Inl e \<Rightarrow> usage_patterns
      | Inr content \<Rightarrow>
          (let usage_patterns =
                 (if search (impl_pattern trait_name) content \<noteq> None
                  then usage_patterns
                         \<lparr>impl_count := impl_count usage_patterns
                            + int (length (findall (impl_pattern trait_name) content)),
                          impl_files := impl_files usage_patterns @ [fst rs_file]\<rparr>
                  else usage_patterns);
               usage_patterns =
                 (if search (dyn_pattern trait_name) content \<noteq> None
                  then usage_patterns
                         \<lparr>dyn_usage := dyn_usage usage_patterns
                            + int (length (findall (dyn_pattern trait_name) content)),
                          dyn_files := dyn_files usage_patterns @ [fst rs_file]\<rparr>
                  else usage_patterns);
               usage_patterns =
                 (if search (bound_pattern trait_name) content \<noteq> None
                  then usage_patterns
                         \<lparr>bound_usage := bound_usage usage_patterns
                            + int (length (findall (bound_pattern trait_name) content)),
                          bound_files := bound_files usage_patterns @ [fst rs_file]\<rparr>
                  else usage_patterns)
           in usage_patterns))"

definition check_trait_usage :: "string \<Rightarrow> source_unit list \<Rightarrow> usage_patterns" where
  "check_trait_usage trait_name corpus =
     fold (scan_unit trait_name) corpus
       \<lparr>impl_count = 0, dyn_usage = 0, bound_usage = 0,
        impl_files = [], dyn_files = [], bound_files = []\<rparr>"

text \<open>The units of a corpus that can be read, with their text.\<close>

definition readable :: "source_unit list \<Rightarrow> (string \<times> string) list" where
  "readable corpus = concat (map (\<lambda>(path, c). case c of None \<Rightarrow> [] | Some t \<Rightarrow> [(path, t)]) corpus)"

section \<open>audit_arc_mutex.py and comprehensive_audit.py: test files\<close>

text \<open>\<open>is_test_file\<close> of \<open>audit_arc_mutex.py\<close>.\<close>

definition is_test_file :: "string \<Rightarrow> bool" where
  "is_test_file path_str =
     (contains ''/tests/'' path_str \<or>
      contains ''/test/'' path_str \<or>
      endswith path_str ''_test.rs'' \<or>
      endswith path_str ''_tests.rs'' \<or>
      contains ''test_'' path_str \<or>
      contains ''tests.rs'' path_str)"

text \<open>\<open>is_test_file\<close> of \<open>comprehensive_audit.py\<close>.\<close>

definition is_test_file_comprehensive :: "string \<Rightarrow> bool" where
  "is_test_file_comprehensive path_str =
     (contains ''/tests/'' path_str \<or>
      contains ''/test/'' path_str \<or>
      endswith path_str ''_test.rs'' \<or>
      endswith path_str ''_tests.rs'' \<or>
      contains ''test_'' path_str \<or>
      contains ''tests.rs'' path_str \<or>
      contains ''benches/'' path_str)"

text \<open>
  The convention as the specification words it: the path contains a tests-directory
  segment, or it ends with a test suffix.
\<close>

definition spec_is_test :: "string \<Rightarrow> bool" where
  "spec_is_test path_str =
     (contains ''/tests/'' path_str \<or>
      contains ''/test/'' path_str \<or>
      endswith path_str ''_test.rs'' \<or>
      endswith path_str ''_tests.rs'')"

section \<open>audit_arc_mutex.py: occurrences and their context\<close>

record arc_usage =
  u_file :: string
  u_line :: int
  inner_type :: string
  full_match :: string
  line_content :: string
  u_context :: string

text \<open>\<^verbatim>\<open>Arc<Mutex<([^>]+(?:<[^>]+>)?)>>\<close>\<close>

definition arc_pattern :: rx where
  "arc_pattern =
     seqs [Lit ''Arc<Mutex<'',
           Grp 1 (Seq (PlusC (\<lambda>c. c \<noteq> CHR ''>''))
                      (Opt (seqs [Lit ''<'', PlusC (\<lambda>c. c \<noteq> CHR ''>''), Lit ''>'']))),
           Lit ''>>'']"

text \<open>
  The bounds of the context of a match on line \<open>line_num\<close> (counted from 1) of
  \<open>lines\<close>: \<open>context_start = max(0, line_num - 3)\<close> and
  \<open>context_end = min(len(lines), line_num + 3)\<close>, used as \<open>lines[context_start:context_end]\<close>.
\<close>

definition context_start :: "nat \<Rightarrow> nat" where
  "context_start line_num = nat (max 0 (int line_num - 3))"

definition context_end :: "'a list \<Rightarrow> nat \<Rightarrow> nat" where
  "context_end lines line_num = nat (min (int (length lines)) (int line_num + 3))"

definition context_lines :: "'a list \<Rightarrow> nat \<Rightarrow> 'a list" where
  "context_lines lines line_num =
     py_slice lines (context_start line_num) (context_end lines line_num)"

text \<open>The inner loop: the occurrences on one line.\<close>

definition usages_of_line :: "string \<Rightarrow> string list \<Rightarrow> nat \<times> string \<Rightarrow> arc_usage list" where
  "usages_of_line file_path lines numbered =
     (let line_num = fst numbered; line = snd numbered
      in map (\<lambda>m. \<lparr>u_file = file_path, u_line = int line_num,
                    inner_type = group m 1,
                    full_match = group0 line m,
                    line_content = strip line,
                    u_context = join [newline] (context_lines lines line_num)\<rparr>)
             (finditer arc_pattern line))"

text \<open>\<open>enumerate(lines, 1)\<close>\<close>

definition enumerate1 :: "'a list \<Rightarrow> (nat \<times> 'a) list" where
  "enumerate1 xs = zip [1 ..< Suc (length xs)] xs"

definition extract_arc_mutex_usage :: "source_unit \<Rightarrow> error + arc_usage list" where
  "extract_arc_mutex_usage u =
     (case read_text u of
        Inl e \<Rightarrow> Inl e
      | Inr content \<Rightarrow>
          (let lines = split_lines content
           in Inr (concat (map (usages_of_line (fst u) lines) (enumerate1 lines)))))"

section \<open>audit_arc_mutex.py: the severity classifier\<close>

datatype severity = HIGH | MEDIUM | LOW

record analysis =
  issues :: "string list"
  recommendations :: "string list"
  severity :: severity

definition simple_types :: "string list" where
  "simple_types =
     [''bool'', ''i32'', ''i64'', ''u32'', ''u64'', ''f32'', ''f64'', ''usize'', ''isize'']"

text \<open>\<^verbatim>\<open>\.lock\(\)\.(?:unwrap\(\)|expect)\<close> and the four read-only expressions.\<close>

definition lock_pattern :: rx where
  "lock_pattern = Seq (Lit ''.lock().'') (Alt (Lit ''unwrap()'') (Lit ''expect''))"

definition read_only_patterns :: "rx list" where
  "read_only_patterns =
     [seqs [Lit ''.lock()'', StarC any_char, Lit ''.get(''],
      seqs [Lit ''.lock()'', StarC any_char, Lit ''.contains''],
      seqs [Lit ''.lock()'', StarC any_char, Lit ''.iter(''],
      seqs [Lit ''let '', StarC any_char, Lit '' = '', StarC any_char, Lit ''.lock()'']]"

definition thread_keywords :: "string list" where
  "thread_keywords = [''spawn'', ''thread::'', ''tokio::spawn'', ''async'', ''send'', ''sync'']"

text \<open>
  \<open>reads > locks * 0.7\<close> on two counts. Python multiplies in binary floating point:
  \<open>0.7\<close> is the double \<open>6305039478318694 / 2^53\<close>, the product is rounded to 53
  significant bits (to nearest, ties to even) and the integer is compared with it
  exactly. So \<open>63 > 90 * 0.7\<close> holds, the product being \<open>62.99999999999999\<close>.
\<close>

function bit_length :: "int \<Rightarrow> nat" where
  "bit_length n = (if n \<le> 0 then 0 else Suc (bit_length (n div 2)))"
  by pat_completeness auto
termination
  by (relation "measure nat") auto

declare bit_length.simps [simp del]

definition gt_times_07 :: "int \<Rightarrow> int \<Rightarrow> bool" where
  "gt_times_07 reads locks =
     (let n = locks * 6305039478318694;
          b = bit_length n
      in if b \<le> 53 then n < reads * 2 ^ 53
         else (let s = b - 53;
                   q = n div 2 ^ s;
                   r = n mod 2 ^ s;
                   half = 2 ^ (s - 1);
                   q = (if half < r \<or> (r = half \<and> odd q) then q + 1 else q)
               in q * 2 ^ s < reads * 2 ^ 53))"

text \<open>The conditions of the six checks, in the order of the source.\<close>

definition check_simple_type :: "'a arc_usage_scheme \<Rightarrow> string \<Rightarrow> bool" where
  "check_simple_type usage file_content =
     list_ex (\<lambda>t. startswith (inner_type usage) t) simple_types"

definition clone_count :: "string \<Rightarrow> nat" where
  "clone_count file_content = count_from ''.clone()'' file_content"

definition check_clone :: "'a arc_usage_scheme \<Rightarrow> string \<Rightarrow> bool" where
  "check_clone usage file_content = (5 < clone_count file_content)"

definition locks_in_context :: "string \<Rightarrow> int" where
  "locks_in_context ctx = int (length (findall lock_pattern ctx))"

definition reads_in_context :: "string \<Rightarrow> int" where
  "reads_in_context ctx =
     sum_list (map (\<lambda>p. int (length (findall p ctx))) read_only_patterns)"

definition check_read_heavy :: "'a arc_usage_scheme \<Rightarrow> string \<Rightarrow> bool" where
  "check_read_heavy usage file_content =
     gt_times_07 (reads_in_context (u_context usage)) (locks_in_context (u_context usage))"

definition has_threading :: "string \<Rightarrow> bool" where
  "has_threading file_content =
     list_ex (\<lambda>keyword. contains keyword (lower file_content)) thread_keywords"

definition check_no_threading :: "'a arc_usage_scheme \<Rightarrow> string \<Rightarrow> bool" where
  "check_no_threading usage file_content = (\<not> has_threading file_content)"

definition check_channel :: "'a arc_usage_scheme \<Rightarrow> string \<Rightarrow> bool" where
  "check_channel usage file_content =
     (contains ''sender'' (lower (inner_type usage)) \<or>
      contains ''receiver'' (lower (inner_type usage)) \<or>
      contains ''channel'' (lower file_content))"

definition check_defensive :: "'a arc_usage_scheme \<Rightarrow> string \<Rightarrow> bool" where
  "check_defensive usage file_content =
     (contains ''.clone()'' (line_content usage) \<and>
      contains ''Arc::new(Mutex::new'' (line_content usage))"

definition severity_of :: "nat \<Rightarrow> severity" where
  "severity_of n = (if 3 \<le> n then HIGH else if 1 \<le> n then MEDIUM else LOW)"

text \<open>
  \<open>analyze_usage_pattern(usage, file_content)\<close>: the two lists are threaded through
  the checks in the order of the source.
\<close>

definition analyze_usage_pattern :: "'a arc_usage_scheme \<Rightarrow> string \<Rightarrow> analysis" where
  "analyze_usage_pattern usage file_content =
     (let issues = [];
          recommendations = [];
          (issues, recommendations) =
            (if check_simple_type usage file_content
             then (issues @ [''Simple atomic type - consider using atomic primitives''],
                   recommendations @
                     [''Use Atomic'' @ capitalize (inner_type usage) @ '' instead''])
             else (issues, recommendations));
          issues =
            (if check_clone usage file_content
             then issues @ [''File has '' @ str_int (int (clone_count file_content)) @
                            '' .clone() calls - possible excessive sharing'']
             else issues);
          (issues, recommendations) =
            (if check_read_heavy usage file_content
             then (issues @ [''Appears to be read-heavy''],
                   recommendations @
                     [''Consider Arc<RwLock<T>> for better read concurrency''])
             else (issues, recommendations));
          (issues, recommendations) =
            (if check_no_threading usage file_content
             then (issues @ [''No obvious threading/async usage in file''],
                   recommendations @
                     [''Might not need Arc - consider Rc<RefCell<T>> or plain ownership''])
             else (issues, recommendations));
          recommendations =
            (if check_channel usage file_content
             then recommendations @
                    [''Consider using channels for producer/consumer pattern'']
             else recommendations);
          issues =
            (if check_defensive usage file_content
             then issues @
                    [''Created and immediately cloned - might be defensive programming'']
             else issues)
      in \<lparr>issues = issues, recommendations = recommendations,
          severity = severity_of (length issues)\<rparr>)"

text \<open>The order \<open>LOW < MEDIUM < HIGH\<close>.\<close>

fun severity_rank :: "severity \<Rightarrow> nat" where
  "severity_rank LOW = 0"
| "severity_rank MEDIUM = 1"
| "severity_rank HIGH = 2"

text \<open>The checks that add an issue, and how many of them hold on an input.\<close>

definition issue_checks :: "(arc_usage \<Rightarrow> string \<Rightarrow> bool) list" where
  "issue_checks =
     [check_simple_type, check_clone, check_read_heavy, check_no_threading, check_defensive]"

definition all_checks :: "(arc_usage \<Rightarrow> string \<Rightarrow> bool) list" where
  "all_checks =
     [check_simple_type, check_clone, check_read_heavy, check_no_threading, check_channel,
      check_defensive]"

definition true_checks :: "(arc_usage \<Rightarrow> string \<Rightarrow> bool) list \<Rightarrow> arc_usage \<Rightarrow> string \<Rightarrow> nat" where
  "true_checks checks usage file_content =
     length (filter (\<lambda>check. check usage file_content) checks)"

text \<open>
  The loop of \<open>main\<close> that builds \<open>all_usages\<close>: every file is read by
  \<open>extract_arc_mutex_usage\<close> and, when it has occurrences, once more for the analysis;
  a read that raises ends the run.
\<close>

fun main_all_usages :: "source_unit list \<Rightarrow> error + (arc_usage \<times> analysis) list" where
  "main_all_usages [] = Inr []"
| "main_all_usages (rs_file # rest) =
     (case extract_arc_mutex_usage rs_file of
        Inl e \<Rightarrow> Inl e
      | Inr usages \<Rightarrow>
          (case (if usages \<noteq> [] then read_text rs_file else Inr []) of
             Inl e \<Rightarrow> Inl e
           | Inr file_content \<Rightarrow>
               (case main_all_usages rest of
                  Inl e \<Rightarrow> Inl e
                | Inr all_usages \<Rightarrow>
                    Inr (map (\<lambda>usage. (usage, analyze_usage_pattern usage file_content)) usages
                         @ all_usages))))"

section \<open>Measures and example inputs used in the statements\<close>

text \<open>
  The total number of matches of an expression over the readable units, and the
  paths of the readable units with at least one match, in corpus order.
\<close>

definition hits :: "rx \<Rightarrow> (string \<times> string) list \<Rightarrow> int" where
  "hits r units = sum_list (map (\<lambda>(path, text). int (length (findall r text))) units)"

definition hit_units :: "rx \<Rightarrow> (string \<times> string) list \<Rightarrow> string list" where
  "hit_units r units = map fst (filter (\<lambda>(path, text). findall r text \<noteq> []) units)"

definition profile_corpus :: "source_unit list" where
  "profile_corpus =
     [(''a.rs'', Some (''impl T for X {} impl T for Y'' @ [newline] @ ''impl<A: T> dyn T'')),
      (''b.rs'', None),
      (''c.rs'', Some ''x: T'')]"

definition nested_content :: string where
  "nested_content = ''trait T { fn a() {{ x }} } // end''"

definition nested_match :: rmatch where
  "nested_match = \<lparr>m_start = 0, m_end = 9, m_groups = [(2, ''T''), (1, [])]\<rparr>"

definition unbalanced_unit :: source_unit where
  "unbalanced_unit = (''a.rs'', Some ''trait T { fn f();'')"

definition spaced_unit :: source_unit where
  "spaced_unit = (''a.rs'', Some ''trait T { fn f(); }'')"

definition eight_lines :: string where
  "eight_lines =
     ''l1'' @ [newline] @ ''l2'' @ [newline] @ ''l3'' @ [newline] @
     ''x: Arc<Mutex<bool>>,'' @ [newline] @ ''l5'' @ [newline] @ ''l6'' @ [newline] @
     ''l7'' @ [newline] @ ''l8''"

definition channel_usage :: arc_usage where
  "channel_usage =
     \<lparr>u_file = ''a.rs'', u_line = 1, inner_type = ''Sender<u8'',
      full_match = ''Arc<Mutex<Sender<u8>>'', line_content = ''x: Arc<Mutex<Sender<u8>>>'',
      u_context = ''x: Arc<Mutex<Sender<u8>>>''\<rparr>"

definition bool_file :: string where
  "bool_file = ''async fn f(x: Arc<Mutex<bool>>) {}''"

definition bool_occurrence :: arc_usage where
  "bool_occurrence =
     \<lparr>u_file = ''a.rs'', u_line = 1, inner_type = ''bool'',
      full_match = ''Arc<Mutex<bool>>'', line_content = bool_file, u_context = bool_file\<rparr>"

definition sender_file :: string where
  "sender_file = ''async fn f(x: Arc<Mutex<Sender<u8>>>) {}''"

definition sender_occurrence :: arc_usage where
  "sender_occurrence =
     \<lparr>u_file = ''b.rs'', u_line = 1, inner_type = ''Sender<u8'',
      full_match = ''Arc<Mutex<Sender<u8>>'', line_content = sender_file,
      u_context = sender_file\<rparr>"

definition arc_corpus :: "source_unit list" where
  "arc_corpus =
     [(''a.rs'', Some ''x: Arc<Mutex<bool>>,''), (''bad.rs'', None), (''c.rs'', Some ''y'')]"

definition trait_corpus :: "source_unit list" where
  "trait_corpus =
     [(''a.rs'', Some ''trait T { fn f(); }''), (''bad.rs'', None), (''c.rs'', Some ''y'')]"

text \<open>One text is the other from some position on.\<close>

definition is_suffix :: "string \<Rightarrow> string \<Rightarrow> bool" where
  "is_suffix r s = (\<exists>k. r = drop k s)"

text \<open>The expression is a sequence whose last item is the literal \<open>l\<close>.\<close>

fun ends_with_lit :: "rx \<Rightarrow> string \<Rightarrow> bool" where
  "ends_with_lit (Lit l') l = (l' = l)"
| "ends_with_lit (Seq a b) l = ends_with_lit b l"
| "ends_with_lit _ l = False"

section \<open>Properties of the declaration classifier\<close>

lemma analyze_trait_necessity_reasons:
  "analyze_trait_necessity ti u =
     (spec_decision (spec_keep_reasons ti u) (spec_remove_reasons ti u),
      spec_keep_reasons ti u, spec_remove_reasons ti u)"
  by (simp add: analyze_trait_necessity_def spec_keep_reasons_def spec_remove_reasons_def
      spec_decision_def Let_def)


text \<open>
  C3. Whatever triple \<open>analyze_trait_necessity\<close> returns, its reason lists are the
  ones the six rules produce in their fixed order, the category is
  \<open>DEFINITELY_REMOVE\<close> exactly when the keep-reasons are empty and the remove-reasons
  are not, otherwise \<open>MAYBE_REMOVE\<close> exactly when there is at most one keep-reason and
  there are at least two remove-reasons, otherwise \<open>KEEP_AS_IS\<close>; and the three
  branches on the implementation count exclude one another, so that at most one
  reason of rule 5 is present.
\<close>

theorem analyze_trait_necessity_decision:
  "analyze_trait_necessity ti u = (c, k, r) \<Longrightarrow>
     k = spec_keep_reasons ti u \<and> r = spec_remove_reasons ti u \<and>
     (c = DEFINITELY_REMOVE \<longleftrightarrow> (k = [] \<and> r \<noteq> [])) \<and>
     (c = MAYBE_REMOVE \<longleftrightarrow>
        (\<not> (k = [] \<and> r \<noteq> []) \<and> length k \<le> 1 \<and> length r \<ge> 2)) \<and>
     (c = KEEP_AS_IS \<longleftrightarrow>
        (\<not> (k = [] \<and> r \<noteq> []) \<and> \<not> (length k \<le> 1 \<and> length r \<ge> 2))) \<and>
     length (filter is_impl_reason (k @ r)) \<le> 1"
proof -
  assume a: "analyze_trait_necessity ti u = (c, k, r)"
  have k: "k = spec_keep_reasons ti u" and r: "r = spec_remove_reasons ti u"
    and c: "c = spec_decision k r"
    using a unfolding analyze_trait_necessity_reasons by auto
  have one: "length (filter is_impl_reason (k @ r)) \<le> 1"
    unfolding k r
    by (simp add: spec_keep_reasons_def spec_remove_reasons_def is_impl_reason_def)
  from c have "(c = DEFINITELY_REMOVE \<longleftrightarrow> (k = [] \<and> r \<noteq> []))"
    and "(c = MAYBE_REMOVE \<longleftrightarrow>
        (\<not> (k = [] \<and> r \<noteq> []) \<and> length k \<le> 1 \<and> length r \<ge> 2))"
    and "(c = KEEP_AS_IS \<longleftrightarrow>
        (\<not> (k = [] \<and> r \<noteq> []) \<and> \<not> (length k \<le> 1 \<and> length r \<ge> 2)))"
    by (simp_all add: spec_decision_def)
  with k r one show ?thesis by blast
qed

theorem analyze_trait_necessity_decision_witness:
  "analyze_trait_necessity single_method_trait no_usage =
     (DEFINITELY_REMOVE, [], [''Single method trait'', ''No implementations found'']) \<and>
   analyze_trait_necessity single_method_trait one_impl_one_dyn =
     (MAYBE_REMOVE, [''Used in trait objects (1 times)''],
      [''Single method trait'', ''Only one implementation'']) \<and>
   [''Single method trait'', ''No implementations found''] =
     spec_remove_reasons single_method_trait no_usage"
proof -
  have e: "analyze_trait_necessity single_method_trait no_usage =
     (DEFINITELY_REMOVE, [], [''Single method trait'', ''No implementations found''])"
    by (simp add: analyze_trait_necessity_def single_method_trait_def no_usage_def)
  have f: "analyze_trait_necessity single_method_trait one_impl_one_dyn =
     (MAYBE_REMOVE, [''Used in trait objects (1 times)''],
      [''Single method trait'', ''Only one implementation''])"
    by code_simp
  from analyze_trait_necessity_decision [OF e] e f show ?thesis by simp
qed

text \<open>
  C10. When the implementation count is a non-negative integer, exactly one branch of
  rule 5 fires, so the keep-reasons and the remove-reasons returned by
  \<open>analyze_trait_necessity\<close> are never both empty.
\<close>

theorem analyze_trait_necessity_some_reason:
  "0 \<le> impl_count u \<Longrightarrow> analyze_trait_necessity ti u = (c, k, r) \<Longrightarrow>
     length (filter is_impl_reason (k @ r)) = 1 \<and> (k \<noteq> [] \<or> r \<noteq> [])"
proof -
  assume n: "0 \<le> impl_count u" and a: "analyze_trait_necessity ti u = (c, k, r)"
  have k: "k = spec_keep_reasons ti u" and r: "r = spec_remove_reasons ti u"
    using a unfolding analyze_trait_necessity_reasons by simp_all
  have one: "length (filter is_impl_reason (k @ r)) = 1"
    unfolding k r using n
    by (simp add: spec_keep_reasons_def spec_remove_reasons_def is_impl_reason_def)
  then have "k @ r \<noteq> []" by auto
  with one show ?thesis by simp
qed

theorem analyze_trait_necessity_some_reason_witness:
  "0 \<le> impl_count no_usage \<and>
   analyze_trait_necessity single_method_trait no_usage =
     (DEFINITELY_REMOVE, [], [''Single method trait'', ''No implementations found'']) \<and>
   length (filter is_impl_reason
     ([] @ [''Single method trait'', ''No implementations found''])) = 1"
proof -
  have n: "0 \<le> impl_count no_usage" by (simp add: no_usage_def)
  have e: "analyze_trait_necessity single_method_trait no_usage =
     (DEFINITELY_REMOVE, [], [''Single method trait'', ''No implementations found''])"
    by (simp add: analyze_trait_necessity_def single_method_trait_def no_usage_def)
  from analyze_trait_necessity_some_reason [OF n e] n e show ?thesis by simp
qed


section \<open>Properties of the test-file convention\<close>

text \<open>
  C9, as stated, fails: a path that has \<open>test_\<close> inside a file name, neither as a
  directory segment nor as a suffix, is classified as test by both scripts.
\<close>

theorem is_test_file_substring_counterexample:
  "is_test_file ''src/contest_results.rs'' \<and>
   is_test_file_comprehensive ''src/contest_results.rs'' \<and>
   \<not> spec_is_test ''src/contest_results.rs''"
  by code_simp

text \<open>
  C9, amended. A unit is classified as test exactly when its path contains a
  \<open>/tests/\<close> or \<open>/test/\<close> segment, or ends with \<open>_test.rs\<close> or \<open>_tests.rs\<close>, or
  contains \<open>test_\<close> or \<open>tests.rs\<close> anywhere; \<open>comprehensive_audit.py\<close> also takes
  every path that contains \<open>benches/\<close>.
\<close>

theorem is_test_file_amended:
  "(is_test_file p \<longleftrightarrow>
      spec_is_test p \<or> contains ''test_'' p \<or> contains ''tests.rs'' p) \<and>
   (is_test_file_comprehensive p \<longleftrightarrow> is_test_file p \<or> contains ''benches/'' p)"
  by (auto simp: is_test_file_def is_test_file_comprehensive_def spec_is_test_def)

theorem is_test_file_amended_witness:
  "spec_is_test ''a/tests/x.rs'' \<and> is_test_file ''a/tests/x.rs'' \<and>
   is_test_file_comprehensive ''a/tests/x.rs''"
proof -
  have "spec_is_test ''a/tests/x.rs''" by code_simp
  with is_test_file_amended [of "''a/tests/x.rs''"] show ?thesis by simp
qed

section \<open>Properties of the severity classifier\<close>

lemma analyze_usage_pattern_fields:
  "issues (analyze_usage_pattern u fc) =
     (if check_simple_type u fc
      then [''Simple atomic type - consider using atomic primitives''] else [])
     @ (if check_clone u fc
        then [''File has '' @ str_int (int (clone_count fc)) @
              '' .clone() calls - possible excessive sharing''] else [])
     @ (if check_read_heavy u fc then [''Appears to be read-heavy''] else [])
     @ (if check_no_threading u fc then [''No obvious threading/async usage in file''] else [])
     @ (if check_defensive u fc
        then [''Created and immediately cloned - might be defensive programming''] else [])"
  "recommendations (analyze_usage_pattern u fc) =
     (if check_simple_type u fc
      then [''Use Atomic'' @ capitalize (inner_type u) @ '' instead''] else [])
     @ (if check_read_heavy u fc
        then [''Consider Arc<RwLock<T>> for better read concurrency''] else [])
     @ (if check_no_threading u fc
        then [''Might not need Arc - consider Rc<RefCell<T>> or plain ownership''] else [])
     @ (if check_channel u fc
        then [''Consider using channels for producer/consumer pattern''] else [])"
  "severity (analyze_usage_pattern u fc) =
     severity_of (length (issues (analyze_usage_pattern u fc)))"
  by (simp_all add: analyze_usage_pattern_def Let_def)

lemma issues_count:
  "length (issues (analyze_usage_pattern u fc)) = true_checks issue_checks u fc"
  by (simp add: analyze_usage_pattern_fields true_checks_def issue_checks_def)

lemma severity_of_mono:
  "m \<le> n \<Longrightarrow> severity_rank (severity_of m) \<le> severity_rank (severity_of n)"
  by (simp add: severity_of_def)

lemma filter_length_mono:
  "(\<And>x. x \<in> set xs \<Longrightarrow> P x \<Longrightarrow> Q x) \<Longrightarrow> length (filter P xs) \<le> length (filter Q xs)"
proof (induction xs)
  case Nil
  show ?case by simp
next
  case (Cons x xs)
  have ih: "length (filter P xs) \<le> length (filter Q xs)"
    by (rule Cons.IH) (simp add: Cons.prems)
  have px: "P x \<Longrightarrow> Q x" by (rule Cons.prems) simp
  show ?case using ih px by (cases "P x") simp_all
qed

lemma true_checks_mono:
  assumes "\<forall>check \<in> set cs. check u1 f1 \<longrightarrow> check u2 f2"
  shows "true_checks cs u1 f1 \<le> true_checks cs u2 f2"
  unfolding true_checks_def
  by (rule filter_length_mono) (use assms in blast)

lemma channel_usage_checks:
  "\<not> check_simple_type channel_usage ''async fn f() {}''"
  "\<not> check_clone channel_usage ''async fn f() {}''"
  "\<not> check_read_heavy channel_usage ''async fn f() {}''"
  "\<not> check_no_threading channel_usage ''async fn f() {}''"
  "check_channel channel_usage ''async fn f() {}''"
  "\<not> check_defensive channel_usage ''async fn f() {}''"
  "\<not> check_simple_type channel_usage ''fn f() {}''"
  "\<not> check_clone channel_usage ''fn f() {}''"
  "\<not> check_read_heavy channel_usage ''fn f() {}''"
  "check_no_threading channel_usage ''fn f() {}''"
  "check_channel channel_usage ''fn f() {}''"
  "\<not> check_defensive channel_usage ''fn f() {}''"
  by code_simp+

text \<open>
  C6, as stated, fails: on an occurrence of a sender type in a file with \<open>async\<close>,
  only the channel check holds, and it adds a recommendation without any issue.
\<close>

theorem analyze_usage_pattern_channel_counterexample:
  "issues (analyze_usage_pattern channel_usage ''async fn f() {}'') = [] \<and>
   recommendations (analyze_usage_pattern channel_usage ''async fn f() {}'') =
     [''Consider using channels for producer/consumer pattern'']"
  by code_simp

text \<open>
  C6, amended. Each of the five checks simple-type, clone-count, read-heavy,
  no-threading and defensive that holds adds exactly one issue, and of these the
  simple-type, read-heavy and no-threading checks add one recommendation each, the
  other two none; the channel check, when it holds, adds one recommendation and no
  issue. The entries come in the order of the checks.
\<close>

theorem analyze_usage_pattern_entries:
  "issues (analyze_usage_pattern u fc) =
     (if check_simple_type u fc
      then [''Simple atomic type - consider using atomic primitives''] else [])
     @ (if check_clone u fc
        then [''File has '' @ str_int (int (clone_count fc)) @
              '' .clone() calls - possible excessive sharing''] else [])
     @ (if check_read_heavy u fc then [''Appears to be read-heavy''] else [])
     @ (if check_no_threading u fc then [''No obvious threading/async usage in file''] else [])
     @ (if check_defensive u fc
        then [''Created and immediately cloned - might be defensive programming''] else [])
   \<and> recommendations (analyze_usage_pattern u fc) =
     (if check_simple_type u fc
      then [''Use Atomic'' @ capitalize (inner_type u) @ '' instead''] else [])
     @ (if check_read_heavy u fc
        then [''Consider Arc<RwLock<T>> for better read concurrency''] else [])
     @ (if check_no_threading u fc
        then [''Might not need Arc - consider Rc<RefCell<T>> or plain ownership''] else [])
     @ (if check_channel u fc
        then [''Consider using channels for producer/consumer pattern''] else [])"
  by (simp add: analyze_usage_pattern_fields)

theorem analyze_usage_pattern_entries_witness:
  "issues (analyze_usage_pattern channel_usage ''fn f() {}'') =
     [''No obvious threading/async usage in file''] \<and>
   recommendations (analyze_usage_pattern channel_usage ''fn f() {}'') =
     [''Might not need Arc - consider Rc<RefCell<T>> or plain ownership'',
      ''Consider using channels for producer/consumer pattern'']"
  using analyze_usage_pattern_entries [of channel_usage "''fn f() {}''"]
  by (simp add: channel_usage_checks)

text \<open>
  C7, as stated, fails in its last part: the severity is not monotone in the number
  of checks that hold. The channel check adds no issue, so of two occurrences, each
  extracted from its own file and each with exactly one check that holds, the one
  with the simple-type check has severity \<open>MEDIUM\<close> and the one with the channel
  check has severity \<open>LOW\<close>.
\<close>

theorem severity_count_counterexample:
  "extract_arc_mutex_usage (''a.rs'', Some bool_file) = Inr [bool_occurrence] \<and>
   extract_arc_mutex_usage (''b.rs'', Some sender_file) = Inr [sender_occurrence] \<and>
   true_checks all_checks bool_occurrence bool_file = 1 \<and>
   true_checks all_checks sender_occurrence sender_file = 1 \<and>
   severity (analyze_usage_pattern bool_occurrence bool_file) = MEDIUM \<and>
   severity (analyze_usage_pattern sender_occurrence sender_file) = LOW"
  by code_simp

text \<open>
  C7, amended. When every one of the six checks that holds on a first input also
  holds on a second one, the severity computed for the second is at least the
  severity computed for the first, in the order \<open>LOW < MEDIUM < HIGH\<close>. The severity
  is \<open>HIGH\<close> exactly when there are at least three issues, \<open>MEDIUM\<close> exactly when
  there are one or two, otherwise \<open>LOW\<close>; the number of issues is the number of
  checks that hold among the five that add an issue (all but the channel check), and
  the severity is monotone in that number, for any two inputs.
\<close>

theorem severity_monotone:
  assumes "\<forall>check \<in> set all_checks. check u1 f1 \<longrightarrow> check u2 f2"
  shows "severity_rank (severity (analyze_usage_pattern u1 f1))
           \<le> severity_rank (severity (analyze_usage_pattern u2 f2))
         \<and> (severity (analyze_usage_pattern u1 f1) = HIGH
              \<longleftrightarrow> 3 \<le> length (issues (analyze_usage_pattern u1 f1)))
         \<and> (severity (analyze_usage_pattern u1 f1) = MEDIUM
              \<longleftrightarrow> 1 \<le> length (issues (analyze_usage_pattern u1 f1))
                  \<and> length (issues (analyze_usage_pattern u1 f1)) < 3)
         \<and> (severity (analyze_usage_pattern u1 f1) = LOW
              \<longleftrightarrow> issues (analyze_usage_pattern u1 f1) = [])
         \<and> length (issues (analyze_usage_pattern u1 f1)) = true_checks issue_checks u1 f1
         \<and> (true_checks issue_checks u3 f3 \<le> true_checks issue_checks u4 f4 \<longrightarrow>
              severity_rank (severity (analyze_usage_pattern u3 f3))
                \<le> severity_rank (severity (analyze_usage_pattern u4 f4)))"
proof -
  have "set issue_checks \<subseteq> set all_checks"
    by (simp add: issue_checks_def all_checks_def)
  with assms have "\<forall>check \<in> set issue_checks. check u1 f1 \<longrightarrow> check u2 f2" by blast
  then have "true_checks issue_checks u1 f1 \<le> true_checks issue_checks u2 f2"
    by (rule true_checks_mono)
  then have mono: "severity_rank (severity (analyze_usage_pattern u1 f1))
           \<le> severity_rank (severity (analyze_usage_pattern u2 f2))"
    by (simp add: analyze_usage_pattern_fields(3) issues_count severity_of_mono)
  have sev: "(severity (analyze_usage_pattern u1 f1) = HIGH
              \<longleftrightarrow> 3 \<le> length (issues (analyze_usage_pattern u1 f1)))"
    "(severity (analyze_usage_pattern u1 f1) = MEDIUM
              \<longleftrightarrow> 1 \<le> length (issues (analyze_usage_pattern u1 f1))
                  \<and> length (issues (analyze_usage_pattern u1 f1)) < 3)"
    "(severity (analyze_usage_pattern u1 f1) = LOW
              \<longleftrightarrow> issues (analyze_usage_pattern u1 f1) = [])"
    unfolding analyze_usage_pattern_fields(3) severity_of_def by (auto simp: Suc_le_eq)
  have count: "true_checks issue_checks u3 f3 \<le> true_checks issue_checks u4 f4 \<longrightarrow>
              severity_rank (severity (analyze_usage_pattern u3 f3))
                \<le> severity_rank (severity (analyze_usage_pattern u4 f4))"
    by (simp add: analyze_usage_pattern_fields(3) issues_count severity_of_mono)
  from mono sev issues_count [of u1 f1] count show ?thesis by blast
qed

theorem severity_monotone_witness:
  "severity (analyze_usage_pattern channel_usage ''async fn f() {}'') = LOW \<and>
   severity (analyze_usage_pattern channel_usage ''fn f() {}'') = MEDIUM \<and>
   severity_rank (severity (analyze_usage_pattern channel_usage ''async fn f() {}''))
     \<le> severity_rank (severity (analyze_usage_pattern channel_usage ''fn f() {}''))"
proof -
  have h: "\<forall>check \<in> set all_checks.
      check channel_usage ''async fn f() {}'' \<longrightarrow> check channel_usage ''fn f() {}''"
    by (simp add: all_checks_def channel_usage_checks)
  have l: "severity (analyze_usage_pattern channel_usage ''async fn f() {}'') = LOW"
    by (simp add: analyze_usage_pattern_fields channel_usage_checks severity_of_def)
  have m: "severity (analyze_usage_pattern channel_usage ''fn f() {}'') = MEDIUM"
    by (simp add: analyze_usage_pattern_fields channel_usage_checks severity_of_def)
  from severity_monotone [OF h, of channel_usage "''async fn f() {}''" channel_usage
      "''fn f() {}''"]
  have "severity_rank (severity (analyze_usage_pattern channel_usage ''async fn f() {}''))
     \<le> severity_rank (severity (analyze_usage_pattern channel_usage ''fn f() {}''))"
    by blast
  with l m show ?thesis by simp
qed

section \<open>Properties of the usage profiler\<close>

lemma search_from_None_iff:
  "(search_from r content pos = None) = (finditer_from r content pos = [])"
proof (induction r content pos rule: finditer_from.induct)
  case (1 r content pos)
  show ?case
  proof (cases "length content < pos")
    case True
    then show ?thesis by (subst search_from.simps, subst finditer_from.simps) simp
  next
    case False
    show ?thesis
    proof (cases "match_at r content pos")
      case None
      with False 1(1) show ?thesis
        by (subst search_from.simps, subst finditer_from.simps) simp
    next
      case (Some m)
      with False show ?thesis
        by (subst search_from.simps, subst finditer_from.simps) simp
    qed
  qed
qed

lemma search_None_iff_findall: "(search r content = None) = (findall r content = [])"
  by (simp add: search_def findall_def finditer_def search_from_None_iff)

lemma scan_unit_unreadable: "scan_unit n (p, None) acc = acc"
  by (simp add: scan_unit_def read_text_def)

lemma scan_unit_readable:
  "impl_count (scan_unit n (p, Some t) acc) =
     impl_count acc + int (length (findall (impl_pattern n) t))"
  "dyn_usage (scan_unit n (p, Some t) acc) =
     dyn_usage acc + int (length (findall (dyn_pattern n) t))"
  "bound_usage (scan_unit n (p, Some t) acc) =
     bound_usage acc + int (length (findall (bound_pattern n) t))"
  "impl_files (scan_unit n (p, Some t) acc) =
     impl_files acc @ (if findall (impl_pattern n) t \<noteq> [] then [p] else [])"
  "dyn_files (scan_unit n (p, Some t) acc) =
     dyn_files acc @ (if findall (dyn_pattern n) t \<noteq> [] then [p] else [])"
  "bound_files (scan_unit n (p, Some t) acc) =
     bound_files acc @ (if findall (bound_pattern n) t \<noteq> [] then [p] else [])"
  by (simp_all add: scan_unit_def read_text_def search_None_iff_findall Let_def
      del: not_None_eq)

lemma readable_Cons:
  "readable ((p, None) # us) = readable us"
  "readable ((p, Some t) # us) = (p, t) # readable us"
  by (simp_all add: readable_def)

lemma fold_scan_unit:
  "impl_count (fold (scan_unit n) corpus acc) =
     impl_count acc + hits (impl_pattern n) (readable corpus) \<and>
   dyn_usage (fold (scan_unit n) corpus acc) =
     dyn_usage acc + hits (dyn_pattern n) (readable corpus) \<and>
   bound_usage (fold (scan_unit n) corpus acc) =
     bound_usage acc + hits (bound_pattern n) (readable corpus) \<and>
   impl_files (fold (scan_unit n) corpus acc) =
     impl_files acc @ hit_units (impl_pattern n) (readable corpus) \<and>
   dyn_files (fold (scan_unit n) corpus acc) =
     dyn_files acc @ hit_units (dyn_pattern n) (readable corpus) \<and>
   bound_files (fold (scan_unit n) corpus acc) =
     bound_files acc @ hit_units (bound_pattern n) (readable corpus)"
proof (induction corpus arbitrary: acc)
  case Nil
  show ?case by (simp add: readable_def hits_def hit_units_def)
next
  case (Cons u us)
  obtain p c where u: "u = (p, c)" by (cases u)
  show ?case
  proof (cases c)
    case None
    with u Cons.IH [of acc] show ?thesis
      by (simp add: scan_unit_unreadable readable_Cons)
  next
    case (Some t)
    with u Cons.IH [of "scan_unit n (p, Some t) acc"] show ?thesis
      by (simp add: scan_unit_readable readable_Cons hits_def hit_units_def)
  qed
qed

text \<open>
  C8. For every construct name and corpus, each of the three counts returned by
  \<open>check_trait_usage\<close> is the sum, over the readable units, of the number of matches
  of its expression in the unit, and each of the three file lists holds exactly the
  readable units with at least one such match, in corpus order.
\<close>

theorem check_trait_usage_counts:
  "impl_count (check_trait_usage n corpus) = hits (impl_pattern n) (readable corpus) \<and>
   dyn_usage (check_trait_usage n corpus) = hits (dyn_pattern n) (readable corpus) \<and>
   bound_usage (check_trait_usage n corpus) = hits (bound_pattern n) (readable corpus) \<and>
   impl_files (check_trait_usage n corpus) = hit_units (impl_pattern n) (readable corpus) \<and>
   dyn_files (check_trait_usage n corpus) = hit_units (dyn_pattern n) (readable corpus) \<and>
   bound_files (check_trait_usage n corpus) = hit_units (bound_pattern n) (readable corpus)"
  unfolding check_trait_usage_def using fold_scan_unit [of n corpus] by simp

theorem check_trait_usage_counts_witness:
  "check_trait_usage ''T'' profile_corpus =
     \<lparr>impl_count = 2, dyn_usage = 1, bound_usage = 2, impl_files = [''a.rs''],
      dyn_files = [''a.rs''], bound_files = [''a.rs'', ''c.rs'']\<rparr> \<and>
   hits (impl_pattern ''T'') (readable profile_corpus) = 2 \<and>
   hit_units (impl_pattern ''T'') (readable profile_corpus) = [''a.rs'']"
proof -
  have e: "check_trait_usage ''T'' profile_corpus =
     \<lparr>impl_count = 2, dyn_usage = 1, bound_usage = 2, impl_files = [''a.rs''],
      dyn_files = [''a.rs''], bound_files = [''a.rs'', ''c.rs'']\<rparr>"
    by code_simp
  from check_trait_usage_counts [of "''T''" profile_corpus] e show ?thesis by simp
qed


section \<open>Properties of the matcher\<close>

lemma is_suffix_refl: "is_suffix s s"
  unfolding is_suffix_def by (rule exI [of _ 0]) simp

lemma is_suffix_trans: "is_suffix a b \<Longrightarrow> is_suffix b c \<Longrightarrow> is_suffix a c"
  unfolding is_suffix_def by (metis drop_drop)

lemma is_suffix_drop: "is_suffix (drop k s) s"
  unfolding is_suffix_def by blast

lemma is_suffix_Cons: "is_suffix r cs \<Longrightarrow> is_suffix r (c # cs)"
  unfolding is_suffix_def by (metis drop_Suc_Cons)

lemma star_rems_suffix: "(pv, r) \<in> set (star_rems p prev s) \<Longrightarrow> is_suffix r s"
proof (induction s arbitrary: prev)
  case Nil
  then show ?case by (simp add: is_suffix_refl)
next
  case (Cons c cs)
  then show ?case
    by (auto simp: is_suffix_refl is_suffix_Cons split: if_splits)
qed

lemma ms_suffix: "(pv, r, cs) \<in> set (ms rx (prev, s, caps)) \<Longrightarrow> is_suffix r s"
proof (induction rx arbitrary: pv r cs prev s caps)
  case (Lit l)
  then show ?case by (auto simp: is_suffix_drop split: if_splits)
next
  case (Cls p)
  then show ?case by (auto simp: is_suffix_refl is_suffix_Cons split: list.splits if_splits)
next
  case (StarC p)
  then show ?case by (auto dest: star_rems_suffix)
next
  case (PlusC p)
  then show ?case by (auto dest!: star_rems_suffix simp: is_suffix_Cons split: list.splits if_splits)
next
  case (Seq a b)
  from Seq.prems obtain st where st: "st \<in> set (ms a (prev, s, caps))" and r: "(pv, r, cs) \<in> set (ms b st)"
    by auto
  obtain pv' r' cs' where st': "st = (pv', r', cs')" by (cases st)
  from st st' have "is_suffix r' s" using Seq.IH(1) by blast
  moreover from r st' have "is_suffix r r'" using Seq.IH(2) by blast
  ultimately show ?case by (rule is_suffix_trans [rotated])
next
  case (Alt a b)
  then show ?case by auto
next
  case (Opt a)
  then show ?case by (auto simp: is_suffix_refl)
next
  case (Grp n a)
  then show ?case by auto
next
  case Wb
  then show ?case by (auto simp: is_suffix_refl split: if_splits)
next
  case Eos
  then show ?case by (auto simp: is_suffix_refl split: if_splits)
next
  case Bol
  then show ?case by (auto simp: is_suffix_refl split: if_splits)
qed

lemma ms_ends_with_lit:
  "ends_with_lit rx l \<Longrightarrow> (pv, r, cs) \<in> set (ms rx (prev, s, caps)) \<Longrightarrow> is_suffix (l @ r) s"
proof (induction rx arbitrary: pv r cs prev s caps)
  case (Lit l')
  then have "startswith s l" and "r = drop (length l) s" by (auto split: if_splits)
  then have "l @ r = s" by (simp add: startswith_def) (metis append_take_drop_id)
  then show ?case by (simp add: is_suffix_refl)
next
  case (Seq a b)
  from Seq.prems(2) obtain st where st: "st \<in> set (ms a (prev, s, caps))" and r: "(pv, r, cs) \<in> set (ms b st)"
    by auto
  obtain pv' r' cs' where st': "st = (pv', r', cs')" by (cases st)
  from st st' have "is_suffix r' s" using ms_suffix by blast
  moreover from r st' Seq.prems(1) have "is_suffix (l @ r) r'" using Seq.IH(2) by auto
  ultimately show ?case by (rule is_suffix_trans [rotated])
qed simp_all

lemma trait_pattern_ends: "ends_with_lit trait_pattern ''{''"
  by (simp add: trait_pattern_def)

lemma match_at_trait_brace:
  assumes "match_at trait_pattern content pos = Some m"
  shows "m_end m \<le> length content \<and> 0 < m_end m \<and> content ! (m_end m - 1) = CHR ''{''"
proof -
  let ?l = "ms trait_pattern (prev_char content pos, drop pos content, [])"
  from assms have "?l \<noteq> []" by (auto simp: match_at_def)
  then obtain st sts where c: "?l = st # sts" by (cases ?l) auto
  obtain pv rest caps where st: "st = (pv, rest, caps)" by (cases st)
  from assms c st have e: "m_end m = length content - length rest"
    by (auto simp: match_at_def)
  have hd: "(pv, rest, caps) \<in> set ?l" using c st by simp
  from ms_ends_with_lit [OF trait_pattern_ends hd] have "is_suffix (''{'' @ rest) (drop pos content)" .
  then have "is_suffix (''{'' @ rest) content" using is_suffix_drop is_suffix_trans by blast
  then obtain k where k: "CHR ''{'' # rest = drop k content" by (auto simp: is_suffix_def)
  then have lk: "length rest + 1 = length content - k" by (metis length_drop length_Cons Suc_eq_plus1)
  then have klt: "k < length content" by simp
  have "content ! k = CHR ''{''" using k klt by (metis nth_via_drop)
  moreover have "m_end m - 1 = k" using e lk by simp
  moreover have "0 < m_end m" using e lk by simp
  moreover have "m_end m \<le> length content" using e by simp
  ultimately show ?thesis by simp
qed

lemma finditer_from_match_at:
  "m \<in> set (finditer_from r content pos) \<Longrightarrow> \<exists>p. match_at r content p = Some m"
proof (induction r content pos rule: finditer_from.induct)
  case (1 r content pos)
  show ?case
  proof (cases "length content < pos")
    case True
    with 1(3) show ?thesis by (subst (asm) finditer_from.simps) simp
  next
    case False
    show ?thesis
    proof (cases "match_at r content pos")
      case None
      with False 1(3) have "m \<in> set (finditer_from r content (pos + 1))"
        by (subst (asm) finditer_from.simps) simp
      with 1(1) [OF False None] show ?thesis .
    next
      case (Some m')
      with False 1(3) have "m = m' \<or> m \<in> set (finditer_from r content (if pos < m_end m' then m_end m' else pos + 1))"
        by (subst (asm) finditer_from.simps) simp
      then show ?thesis
      proof
        assume "m = m'"
        with Some show ?thesis by blast
      next
        assume "m \<in> set (finditer_from r content (if pos < m_end m' then m_end m' else pos + 1))"
        with 1(2) [OF False Some] show ?thesis .
      qed
    qed
  qed
qed


section \<open>Properties of the trait extractor\<close>

lemma brace_scan_step:
  "pos < length content \<Longrightarrow> 0 < d \<Longrightarrow>
   brace_scan content pos d =
     brace_scan content (Suc pos)
       (if content ! pos = CHR ''{'' then d + 1 else if content ! pos = CHR ''}'' then d - 1 else d)"
  by (subst brace_scan.simps) simp

lemma brace_scan_stop:
  "\<not> (pos < length content \<and> 0 < d) \<Longrightarrow> brace_scan content pos d = (pos, d)"
  by (subst brace_scan.simps) auto

lemma brace_scan_balanced:
  "balanced b \<Longrightarrow> 0 < d \<Longrightarrow>
   brace_scan (pre @ b @ rest) (length pre) d = brace_scan (pre @ b @ rest) (length pre + length b) d"
proof (induction b arbitrary: pre rest d rule: balanced.induct)
  case bal_nil
  show ?case by simp
next
  case (bal_char c w)
  have "brace_scan (pre @ (c # w) @ rest) (length pre) d
        = brace_scan (pre @ (c # w) @ rest) (Suc (length pre)) d"
    using bal_char.hyps(1,2) bal_char.prems by (subst brace_scan_step) simp_all
  also have "\<dots> = brace_scan ((pre @ [c]) @ w @ rest) (length (pre @ [c])) d" by simp
  also have "\<dots> = brace_scan ((pre @ [c]) @ w @ rest) (length (pre @ [c]) + length w) d"
    by (rule bal_char.IH) (rule bal_char.prems)
  finally show ?case by simp
next
  case (bal_nest v w)
  let ?c = "pre @ (CHR ''{'' # v @ CHR ''}'' # w) @ rest"
  have c1: "?c = (pre @ ''{'') @ v @ (CHR ''}'' # w @ rest)" by simp
  have c2: "?c = (pre @ CHR ''{'' # v @ ''}'') @ w @ rest" by simp
  have "brace_scan ?c (length pre) d = brace_scan ?c (Suc (length pre)) (d + 1)"
    using bal_nest.prems by (subst brace_scan_step) simp_all
  also have "\<dots> = brace_scan ?c (length (pre @ ''{'') + length v) (d + 1)"
    using bal_nest.IH(1) [of "d + 1" "pre @ ''{''" "CHR ''}'' # w @ rest"] bal_nest.prems
    unfolding c1 [symmetric] by simp
  also have "\<dots> = brace_scan ?c (Suc (length (pre @ ''{'') + length v)) d"
  proof -
    have "?c ! (length (pre @ ''{'') + length v) = CHR ''}''"
      unfolding c1 by (simp add: nth_append)
    moreover have "length (pre @ ''{'') + length v < length ?c" by simp
    ultimately show ?thesis using bal_nest.prems by (subst brace_scan_step) simp_all
  qed
  also have "\<dots> = brace_scan ?c (length (pre @ CHR ''{'' # v @ ''}'') + length w) d"
    using bal_nest.IH(2) [of d "pre @ CHR ''{'' # v @ ''}''" rest] bal_nest.prems
    unfolding c2 [symmetric] by simp
  finally show ?case by (simp add: add.assoc)
qed

lemma trait_body_of_balanced:
  assumes "balanced b" and "drop start content = b @ CHR ''}'' # rest"
  shows "trait_body_of content start = b"
proof -
  define pre where "pre = take start content"
  have ne: "drop start content \<noteq> []" using assms(2) by simp
  then have lt: "start < length content" by simp
  have len: "length pre = start" using lt by (simp add: pre_def)
  have c: "content = pre @ b @ (CHR ''}'' # rest)"
    using assms(2) append_take_drop_id [of start content] by (simp add: pre_def)
  have "brace_scan content start 1 = brace_scan content (start + length b) 1"
    using brace_scan_balanced [OF assms(1), of 1 pre "CHR ''}'' # rest"] c len by simp
  also have "\<dots> = brace_scan content (Suc (start + length b)) 0"
  proof -
    have "content ! (start + length b) = CHR ''}''"
      by (subst c) (simp add: nth_append len)
    moreover have "start + length b < length content" by (subst c) (simp add: len)
    ultimately show ?thesis by (subst brace_scan_step) simp_all
  qed
  also have "\<dots> = (Suc (start + length b), 0)" by (rule brace_scan_stop) simp
  finally have "trait_body_of content start = py_slice content start (start + length b)"
    by (simp add: trait_body_of_def)
  also have "\<dots> = b" using assms(2) by (simp add: py_slice_def)
  finally show ?thesis .
qed

lemma balanced_append: "balanced u \<Longrightarrow> balanced v \<Longrightarrow> balanced (u @ v)"
proof (induction u rule: balanced.induct)
  case bal_nil
  then show ?case by simp
next
  case (bal_char c w)
  then show ?case by (simp add: balanced.bal_char)
next
  case (bal_nest x w)
  then have "balanced (CHR ''{'' # x @ CHR ''}'' # (w @ v))" by (intro balanced.bal_nest) simp_all
  then show ?case by simp
qed

lemma balanced_plain: "\<forall>c \<in> set w. c \<noteq> CHR ''{'' \<and> c \<noteq> CHR ''}'' \<Longrightarrow> balanced w"
  by (induction w) (auto intro: balanced.intros)

lemma balanced_nested: "balanced w \<Longrightarrow> balanced (nested n w)"
proof (induction n)
  case 0
  then show ?case by simp
next
  case (Suc n)
  then have "balanced (CHR ''{'' # nested n w @ CHR ''}'' # [])"
    by (intro balanced.bal_nest) (simp_all add: balanced.bal_nil)
  then show ?case by simp
qed

lemma t_body_of_match:
  "t_body (trait_of_match f content m) = strip (trait_body_of content (m_end m))"
  by (simp add: trait_of_match_def Let_def split: prod.splits)

text \<open>
  The body that \<open>extract_traits\<close> stores is trimmed, as the data model of the
  specification says: for \<^verbatim>\<open>trait T { fn f(); }\<close> the text between the braces
  has a blank on each side and the stored body has none.
\<close>

lemma extract_traits_body_trimmed:
  "extract_traits spaced_unit =
     Inr [\<lparr>t_name = ''T'', t_file = ''a.rs'', t_line = 1, method_count = 1,
           methods = [''f''], assoc_types = [], has_generics = False,
           signature = ''trait T {'', t_body = ''fn f();''\<rparr>] \<and>
   py_slice ''trait T { fn f(); }'' 9 18 = '' fn f(); ''"
  by code_simp

text \<open>
  C2. For every text and every header match that is followed by a text \<open>b\<close> with
  balanced braces, at any depth of nesting, and then a closing brace: the match ends
  just after the opening brace of the header, the body that the depth counter
  extracts (the counter starts at 1 after that brace and stops where it comes back
  to 0, the closing brace left out) is exactly \<open>b\<close>, the text between the opening
  brace and the closing brace that matches it, and the \<open>body_text\<close> of the
  dictionary that \<open>extract_traits\<close> returns for the match is that text, trimmed as
  the data model says.
\<close>

theorem trait_body_balanced:
  assumes "m \<in> set (finditer trait_pattern content)"
      and "drop (m_end m) content = b @ CHR ''}'' # rest"
      and "balanced b"
  shows "0 < m_end m \<and> content ! (m_end m - 1) = CHR ''{'' \<and>
         trait_body_of content (m_end m) = b \<and>
         t_body (trait_of_match file_path content m) = strip b \<and>
         (\<exists>ts. extract_traits (file_path, Some content) = Inr ts \<and>
               trait_of_match file_path content m \<in> set ts)"
proof -
  from assms(1) obtain p where "match_at trait_pattern content p = Some m"
    unfolding finditer_def by (blast dest: finditer_from_match_at)
  then have brace: "0 < m_end m \<and> content ! (m_end m - 1) = CHR ''{''"
    using match_at_trait_brace by blast
  have body: "trait_body_of content (m_end m) = b"
    using assms(3) assms(2) by (rule trait_body_of_balanced)
  have ex: "extract_traits (file_path, Some content) =
      Inr (map (trait_of_match file_path content) (finditer trait_pattern content))"
    by (simp add: extract_traits_def read_text_def)
  from brace body ex assms(1) show ?thesis by (simp add: t_body_of_match)
qed

theorem trait_body_balanced_witness:
  "nested_match \<in> set (finditer trait_pattern nested_content) \<and>
   drop (m_end nested_match) nested_content = '' fn a() {{ x }} '' @ CHR ''}'' # '' // end'' \<and>
   balanced '' fn a() {{ x }} '' \<and>
   trait_body_of nested_content (m_end nested_match) = '' fn a() {{ x }} '' \<and>
   t_body (trait_of_match ''a.rs'' nested_content nested_match) = ''fn a() {{ x }}''"
proof -
  have h1: "nested_match \<in> set (finditer trait_pattern nested_content)" by code_simp
  have h2: "drop (m_end nested_match) nested_content =
      '' fn a() {{ x }} '' @ CHR ''}'' # '' // end''" by code_simp
  have eq: "'' fn a() {{ x }} '' = '' fn a() '' @ nested 2 '' x '' @ '' ''" by code_simp
  have h3: "balanced '' fn a() {{ x }} ''"
    unfolding eq by (intro balanced_append balanced_nested balanced_plain) simp_all
  have s: "strip '' fn a() {{ x }} '' = ''fn a() {{ x }}''" by code_simp
  from trait_body_balanced [OF h1 h2 h3, of "''a.rs''"] h1 h2 h3 s show ?thesis by simp
qed

text \<open>
  C1. The claim asks that a header whose braces never close before the end of the
  text gives no dictionary. The code appends one all the same: the loop stops at the
  end of the text with the counter still positive, and \<open>content[start:pos-1]\<close> then
  drops the last character of the text, which is no closing brace. For
  \<^verbatim>\<open>trait T { fn f();\<close> the dictionary has the body \<^verbatim>\<open>fn f()\<close>.
\<close>

theorem extract_traits_unbalanced_reported:
  "extract_traits unbalanced_unit =
     Inr [\<lparr>t_name = ''T'', t_file = ''a.rs'', t_line = 1, method_count = 1,
           methods = [''f''], assoc_types = [], has_generics = False,
           signature = ''trait T {'', t_body = ''fn f()''\<rparr>]"
  by code_simp

section \<open>Properties of the context window\<close>

lemma context_lines_window:
  assumes "3 \<le> n" and "n + 3 \<le> length ls"
  shows "context_lines ls n = take 6 (drop (n - 3) ls)"
proof -
  have s: "context_start n = n - 3" using assms(1) by (simp add: context_start_def)
  have e: "context_end ls n = n + 3" using assms(2) by (simp add: context_end_def)
  have "n + 3 - (n - 3) = 6" using assms(1) by simp
  then show ?thesis by (simp add: context_lines_def py_slice_def s e)
qed


text \<open>
  C5. The claim asks for three lines before the matched line and three after it.
  \<open>line_num\<close> counts from 1 and the slice from 0, so the window starts two lines
  before the matched line and ends three lines after it: for a match on line 4 of
  eight lines the context is lines 2 to 7.
\<close>

theorem extract_arc_mutex_usage_context_window:
  "extract_arc_mutex_usage (''a.rs'', Some eight_lines) =
     Inr [\<lparr>u_file = ''a.rs'', u_line = 4, inner_type = ''bool'',
           full_match = ''Arc<Mutex<bool>>'', line_content = ''x: Arc<Mutex<bool>>,'',
           u_context = ''l2'' @ [newline] @ ''l3'' @ [newline] @ ''x: Arc<Mutex<bool>>,'' @
             [newline] @ ''l5'' @ [newline] @ ''l6'' @ [newline] @ ''l7''\<rparr>]"
  by code_simp

section \<open>Unreadable units\<close>

lemma main_all_usages_aborts:
  "(p, None) \<in> set corpus \<Longrightarrow> main_all_usages corpus = Inl ReadError"
proof (induction corpus)
  case Nil
  then show ?case by simp
next
  case (Cons u us)
  show ?case
  proof (cases "u = (p, None)")
    case True
    then show ?thesis by (simp add: extract_arc_mutex_usage_def read_text_def)
  next
    case False
    with Cons have "main_all_usages us = Inl ReadError" by simp
    moreover have "e = ReadError" for e :: error by (cases e) simp
    ultimately show ?thesis by (auto split: sum.splits)
  qed
qed

text \<open>
  C4. The claim asks that every pass skips a unit that cannot be read. Only
  \<open>check_trait_usage\<close> has a \<open>try\<close> around the read; \<open>extract_arc_mutex_usage\<close> and
  \<open>extract_traits\<close> let the exception through, and the loops of \<open>main\<close> that call
  them end with it: on a corpus whose second unit cannot be read neither loop returns
  its list.
\<close>

theorem unreadable_unit_aborts_extraction:
  "main_all_usages arc_corpus = Inl ReadError \<and> main_all_traits trait_corpus = Inl ReadError"
  by code_simp


end
